theory Spec2Isabelle
  imports Main "HOL-Library.Word"
begin

section \<open>UART echo example: the data the program handles\<close>

text \<open>
  The program of \<^verbatim>\<open>main.c\<close> has three pieces of behaviour: the URC handler
  \<^verbatim>\<open>urc_callback\<close>, and the two echo tasks \<^verbatim>\<open>uart1_echo_task\<close> and
  \<^verbatim>\<open>uart2_echo_task\<close>. All three only talk to the outside world: they call the
  logging functions and the POSIX calls on a serial port. The model therefore records, in
  program order, every call the code makes (with its scalar arguments and the bytes it
  passes), and takes what each system call returns from a script supplied by the
  environment.
\<close>

subsection \<open>Arguments of the formatted output calls\<close>

text \<open>
  \<^verbatim>\<open>printf\<close> and \<^verbatim>\<open>debug\<close> take a format string and variadic arguments. The
  model keeps the format string and the arguments as the code passes them; rendering is
  the business of the library. An \<^verbatim>\<open>int\<close> argument (\<^verbatim>\<open>errno\<close>), an
  \<^verbatim>\<open>unsigned int\<close> argument (\<^verbatim>\<open>param2\<close>) and a \<^verbatim>\<open>char *\<close> argument are
  told apart.
\<close>

datatype arg = IntArg int | UIntArg "32 word" | StrArg string

text \<open>
  Modelled from the spec: the log levels \<^verbatim>\<open>DBG_OFF\<close> and \<^verbatim>\<open>DBG_INFO\<close> are
  declared in \<^verbatim>\<open>lib.h\<close>, which is not among the sources. The spec describes the
  logging call as a levelled sink where the "off" level is always visible and the "info"
  level is conditionally visible; the two levels are kept as two symbolic values.
\<close>

datatype dbg_level = DBG_OFF | DBG_INFO

text \<open>Symbolic constants of \<^verbatim>\<open>fcntl.h\<close> and \<^verbatim>\<open>termios.h\<close> used by the tasks.\<close>

datatype oflag = O_RDWR
datatype speed_t = B9600
datatype optional_action = TCSANOW

text \<open>
  A byte of a C buffer is either a value that has been stored there or indeterminate
  (\<open>None\<close>): \<^verbatim>\<open>char ch\<close> and \<^verbatim>\<open>char rdbuf[128]\<close> are declared inside the loop
  bodies without an initialiser.
\<close>

type_synonym cbyte = "char option"

text \<open>
  The calls the code makes. \<open>Select nfds readfds tv_sec tv_usec\<close> is
  \<^verbatim>\<open>select(nfds, &set, NULL, NULL, &timeout)\<close>; \<open>Write fd buf n\<close> is
  \<^verbatim>\<open>write(fd, buf, n)\<close> with the first \<open>n\<close> bytes of the buffer; \<open>Read fd n\<close> is
  \<^verbatim>\<open>read(fd, buf, n)\<close>. The \<^verbatim>\<open>termios\<close> structure passed by pointer to
  \<^verbatim>\<open>tcgetattr\<close>, \<^verbatim>\<open>cfsetspeed\<close> and \<^verbatim>\<open>tcsetattr\<close> is not tracked.
\<close>

datatype event =
    Open string oflag
  | Tcgetattr int
  | Cfsetspeed speed_t
  | Tcsetattr int optional_action
  | Read int nat
  | Write int "cbyte list" nat
  | Close int
  | Select int "int list" int int
  | Printf string "arg list"
  | Debug dbg_level string "arg list"

text \<open>
  What one system call gave back: its return value, the value of \<^verbatim>\<open>errno\<close> the
  program sees after the call, and (for \<^verbatim>\<open>read\<close>) the bytes the call stored into the
  caller's buffer. The return values are C \<^verbatim>\<open>int\<close>s; they are only compared
  with \<open>0\<close> and \<open>-1\<close>, and the one computation on them is \<^verbatim>\<open>fd + 1\<close> on a
  descriptor that \<^verbatim>\<open>open\<close> returned, which is far below \<^verbatim>\<open>INT_MAX\<close>. They are
  modelled as integers.
\<close>

record sysret =
  rv :: int
  errno :: int
  data :: string

definition LF :: char where
  "LF = CHR 0x0A"

definition CR :: char where
  "CR = CHR 0x0D"

definition NUL :: char where
  "NUL = CHR 0x00"

text \<open>\<^verbatim>\<open>strlen\<close>: the number of characters before the first NUL.\<close>

definition strlen :: "string \<Rightarrow> nat" where
  "strlen s = length (takeWhile (\<lambda>c. c \<noteq> NUL) s)"

text \<open>
  A \<^verbatim>\<open>read\<close> into a buffer stores the bytes delivered at its start and leaves the
  remainder of the buffer as it was; it never stores beyond the buffer.
\<close>

definition store :: "string \<Rightarrow> cbyte list \<Rightarrow> cbyte list" where
  "store bs buf = map Some (take (length buf) bs) @ drop (length bs) buf"

section \<open>The URC handler\<close>

text \<open>
  The URC codes and their parameter values are enumerators of \<^verbatim>\<open>ril.h\<close>, which is
  not among the sources. The handler is modelled over any assignment of values to them.
  Both parameters are \<^verbatim>\<open>unsigned int\<close>.
\<close>

record ril_consts =
  URC_SYS_INIT_STATE_IND :: "32 word"
  URC_SIM_CARD_STATE_IND :: "32 word"
  URC_GSM_NW_STATE_IND :: "32 word"
  URC_GPRS_NW_STATE_IND :: "32 word"
  URC_CFUN_STATE_IND :: "32 word"
  URC_COMING_CALL_IND :: "32 word"
  URC_CALL_STATE_IND :: "32 word"
  URC_NEW_SMS_IND :: "32 word"
  URC_MODULE_VOLTAGE_IND :: "32 word"
  URC_ALARM_RING_IND :: "32 word"
  URC_FILE_DOWNLOAD_STATUS :: "32 word"
  URC_FOTA_STARTED :: "32 word"
  URC_FOTA_FINISHED :: "32 word"
  URC_FOTA_FAILED :: "32 word"
  URC_STKPCI_RSP_IND :: "32 word"
  SYS_STATE_SMSOK :: "32 word"
  SIM_STAT_NOT_INSERTED :: "32 word"
  SIM_STAT_READY :: "32 word"
  SIM_STAT_PIN_REQ :: "32 word"
  SIM_STAT_PUK_REQ :: "32 word"
  SIM_STAT_NOT_READY :: "32 word"
  CALL_STATE_BUSY :: "32 word"
  CALL_STATE_NO_ANSWER :: "32 word"
  CALL_STATE_NO_CARRIER :: "32 word"
  CALL_STATE_NO_DIALTONE :: "32 word"

text \<open>
  C rejects a \<^verbatim>\<open>switch\<close> with two equal case labels, so the labels of each of the
  three \<^verbatim>\<open>switch\<close> statements of the handler are pairwise different in every
  program that compiles.
\<close>

definition case_labels_distinct :: "ril_consts \<Rightarrow> bool" where
  "case_labels_distinct c \<longleftrightarrow>
     distinct [URC_SYS_INIT_STATE_IND c, URC_SIM_CARD_STATE_IND c, URC_GSM_NW_STATE_IND c,
               URC_GPRS_NW_STATE_IND c, URC_CFUN_STATE_IND c, URC_COMING_CALL_IND c,
               URC_CALL_STATE_IND c, URC_NEW_SMS_IND c, URC_MODULE_VOLTAGE_IND c,
               URC_ALARM_RING_IND c, URC_FILE_DOWNLOAD_STATUS c, URC_FOTA_STARTED c,
               URC_FOTA_FINISHED c, URC_FOTA_FAILED c, URC_STKPCI_RSP_IND c] \<and>
     distinct [SIM_STAT_NOT_INSERTED c, SIM_STAT_READY c, SIM_STAT_PIN_REQ c,
               SIM_STAT_PUK_REQ c, SIM_STAT_NOT_READY c] \<and>
     distinct [CALL_STATE_BUSY c, CALL_STATE_NO_ANSWER c, CALL_STATE_NO_CARRIER c,
               CALL_STATE_NO_DIALTONE c]"

text \<open>
  Modelled from the spec: \<^verbatim>\<open>struct ril_callinfo_t\<close> is declared in \<^verbatim>\<open>ril.h\<close>,
  which is not among the sources. The spec says that the parameter of the incoming-call
  event is a reference to a call-info structure whose number field is logged; the
  structure is kept as a record with that field.
\<close>

record ril_callinfo_t =
  number :: string

text \<open>
  The memory the handler can read: the addresses at which a call-info structure is valid
  during the callback. Reading through any other address is a fault.
\<close>

type_synonym memory = "32 word \<rightharpoonup> ril_callinfo_t"

datatype fault = Invalid_pointer "32 word"

definition urc_callback ::
  "ril_consts \<Rightarrow> memory \<Rightarrow> 32 word \<Rightarrow> 32 word \<Rightarrow> fault + event list" where
  "urc_callback c mem param1 param2 =
    (if param1 = URC_SYS_INIT_STATE_IND c then
       (if param2 = SYS_STATE_SMSOK c then Inr [] else Inr [])
     else if param1 = URC_SIM_CARD_STATE_IND c then
       (if param2 = SIM_STAT_NOT_INSERTED c then
          Inr [Debug DBG_OFF (''SYSTEM: SIM card not inserted!'' @ [LF]) []]
        else if param2 = SIM_STAT_READY c then
          Inr [Debug DBG_INFO (''SYSTEM: SIM card Ready!'' @ [LF]) []]
        else if param2 = SIM_STAT_PIN_REQ c then
          Inr [Debug DBG_OFF (''SYSTEM: SIM PIN required!'' @ [LF]) []]
        else if param2 = SIM_STAT_PUK_REQ c then
          Inr [Debug DBG_OFF (''SYSTEM: SIM PUK required!'' @ [LF]) []]
        else if param2 = SIM_STAT_NOT_READY c then
          Inr [Debug DBG_OFF (''SYSTEM: SIM card not recognized!'' @ [LF]) []]
        else
          Inr [Debug DBG_OFF (''SYSTEM: SIM ERROR: %d'' @ [LF]) [UIntArg param2]])
     else if param1 = URC_GSM_NW_STATE_IND c then
       Inr [Debug DBG_OFF (''SYSTEM: GSM NW State: %d'' @ [LF]) [UIntArg param2]]
     else if param1 = URC_GPRS_NW_STATE_IND c then Inr []
     else if param1 = URC_CFUN_STATE_IND c then Inr []
     else if param1 = URC_COMING_CALL_IND c then
       (case mem param2 of
          None \<Rightarrow> Inl (Invalid_pointer param2)
        | Some info \<Rightarrow>
            Inr [Debug DBG_OFF (''Incoming voice call from: %s'' @ [LF]) [StrArg (number info)]])
     else if param1 = URC_CALL_STATE_IND c then
       (if param2 = CALL_STATE_BUSY c then
          Inr [Debug DBG_OFF (''The number you dialed is busy now'' @ [LF]) []]
        else if param2 = CALL_STATE_NO_ANSWER c then
          Inr [Debug DBG_OFF (''The number you dialed has no answer'' @ [LF]) []]
        else if param2 = CALL_STATE_NO_CARRIER c then
          Inr [Debug DBG_OFF (''The number you dialed cannot reach'' @ [LF]) []]
        else if param2 = CALL_STATE_NO_DIALTONE c then
          Inr [Debug DBG_OFF (''No Dial tone'' @ [LF]) []]
        else Inr [])
     else if param1 = URC_NEW_SMS_IND c then
       Inr [Debug DBG_OFF (''SMS: New SMS (%d)'' @ [LF]) [UIntArg param2]]
     else if param1 = URC_MODULE_VOLTAGE_IND c then
       Inr [Debug DBG_INFO (''VBatt Voltage: %d'' @ [LF]) [UIntArg param2]]
     else if param1 = URC_ALARM_RING_IND c then Inr []
     else if param1 = URC_FILE_DOWNLOAD_STATUS c then Inr []
     else if param1 = URC_FOTA_STARTED c then Inr []
     else if param1 = URC_FOTA_FINISHED c then Inr []
     else if param1 = URC_FOTA_FAILED c then Inr []
     else if param1 = URC_STKPCI_RSP_IND c then Inr []
     else Inr [])"

text \<open>
  An assignment of values to the enumerators, used to instantiate the theorems about the
  handler at concrete inputs. The values of \<^verbatim>\<open>ril.h\<close> itself are not known here; any
  assignment with distinct case labels serves.
\<close>

definition sample_consts :: ril_consts where
  "sample_consts =
     \<lparr>URC_SYS_INIT_STATE_IND = 0, URC_SIM_CARD_STATE_IND = 1, URC_GSM_NW_STATE_IND = 2,
      URC_GPRS_NW_STATE_IND = 3, URC_CFUN_STATE_IND = 4, URC_COMING_CALL_IND = 5,
      URC_CALL_STATE_IND = 6, URC_NEW_SMS_IND = 7, URC_MODULE_VOLTAGE_IND = 8,
      URC_ALARM_RING_IND = 9, URC_FILE_DOWNLOAD_STATUS = 10, URC_FOTA_STARTED = 11,
      URC_FOTA_FINISHED = 12, URC_FOTA_FAILED = 13, URC_STKPCI_RSP_IND = 14,
      SYS_STATE_SMSOK = 2,
      SIM_STAT_NOT_INSERTED = 0, SIM_STAT_READY = 1, SIM_STAT_PIN_REQ = 2,
      SIM_STAT_PUK_REQ = 3, SIM_STAT_NOT_READY = 4,
      CALL_STATE_BUSY = 0, CALL_STATE_NO_ANSWER = 1, CALL_STATE_NO_CARRIER = 2,
      CALL_STATE_NO_DIALTONE = 3\<rparr>"

section \<open>The echo tasks\<close>

text \<open>
  The port names depend on the build: \<open>soc\<close> is true when \<^verbatim>\<open>SOC_RDA8910\<close> is
  defined.
\<close>

definition STDIO_PORT :: "bool \<Rightarrow> string" where
  "STDIO_PORT soc = (if soc then ''/dev/ttyUSB0'' else ''/dev/ttyS0'')"

definition PORT1 :: "bool \<Rightarrow> string" where
  "PORT1 soc = (if soc then ''/dev/ttyS0'' else ''/dev/ttyS1'')"

definition PORT2 :: "bool \<Rightarrow> string" where
  "PORT2 soc = (if soc then ''/dev/ttyS1'' else ''/dev/ttyS2'')"

text \<open>
  A task runs against a script: the list of what the system calls return, in the order
  the task makes them. Every call on the port (\<^verbatim>\<open>open\<close>, \<^verbatim>\<open>tcgetattr\<close>,
  \<^verbatim>\<open>tcsetattr\<close>, \<^verbatim>\<open>read\<close>, \<^verbatim>\<open>write\<close>, \<^verbatim>\<open>select\<close>, \<^verbatim>\<open>close\<close>) takes the
  next entry, also when the code ignores what the call returned. When the script is
  used up the task is blocked inside the call it has just made, which is then the last
  event of the trace.

  A loop yields its trace and, when it was left by \<^verbatim>\<open>break\<close>, the rest of the script;
  \<open>None\<close> says that the task is still inside the loop, blocked in a call.
\<close>

datatype status = Exited | Blocked

definition emit :: "event list \<Rightarrow> event list \<times> 'a \<Rightarrow> event list \<times> 'a" where
  "emit evs res = (evs @ fst res, snd res)"

subsection \<open>Task 1: byte-wise echo at 9600 baud\<close>

fun uart1_loop :: "int \<Rightarrow> sysret list \<Rightarrow> event list \<times> sysret list option" where
  "uart1_loop fd [] = ([Read fd 1], None)"
| "uart1_loop fd (r # rs) =
     (let ret = rv r; ch = store (data r) [None] in
      if ret < 0 then
        ([Read fd 1,
          Printf (''UART1: fail to read from uart: %d'' @ [LF]) [IntArg (errno r)]], Some rs)
      else
        (case rs of
           [] \<Rightarrow> ([Read fd 1, Write fd ch 1], None)
         | w # rs' \<Rightarrow> emit [Read fd 1, Write fd ch 1] (uart1_loop fd rs')))"

definition uart1_echo_task :: "bool \<Rightarrow> sysret list \<Rightarrow> event list \<times> status" where
  "uart1_echo_task soc script =
     (case script of
        [] \<Rightarrow> ([Open (PORT1 soc) O_RDWR], Blocked)
      | opened # s1 \<Rightarrow>
          (let fd = rv opened in
           if fd < 0 then
             ([Open (PORT1 soc) O_RDWR,
               Printf (''UART1: Error opening %s, err %d'' @ [LF])
                 [StrArg (PORT1 soc), IntArg (errno opened)]], Exited)
           else
             emit [Open (PORT1 soc) O_RDWR]
               (case s1 of
                  [] \<Rightarrow> ([Tcgetattr fd], Blocked)
                | got # s2 \<Rightarrow>
                    emit [Tcgetattr fd, Cfsetspeed B9600]
                      (case s2 of
                         [] \<Rightarrow> ([Tcsetattr fd TCSANOW], Blocked)
                       | applied # s3 \<Rightarrow>
                           emit [Tcsetattr fd TCSANOW,
                                 Printf (''UART1: %s open @ 9600'' @ [LF]) [StrArg (PORT1 soc)]]
                             (case uart1_loop fd s3 of
                                (tr, None) \<Rightarrow> (tr, Blocked)
                              | (tr, Some s4) \<Rightarrow>
                                  (case s4 of
                                     [] \<Rightarrow> (tr @ [Close fd], Blocked)
                                   | closed # s5 \<Rightarrow> (tr @ [Close fd], Exited)))))))"

subsection \<open>Task 2: echo with a 5 second timeout\<close>

text \<open>
  The idle notice is the string literal that the code passes to \<^verbatim>\<open>write\<close> (with
  its \<^verbatim>\<open>strlen\<close> as the count) and to \<^verbatim>\<open>printf\<close>. The echo is
  \<^verbatim>\<open>write(fd, rdbuf, ret)\<close>: the first \<open>ret\<close> bytes of the buffer. A
  \<^verbatim>\<open>read\<close> that keeps to its contract returns at most 128 here; were it to return
  more, the C code would read past the buffer, and the trace records the 128 bytes of the
  buffer with the count \<open>ret\<close>.
\<close>

definition idle_notice :: string where
  "idle_notice = [CR, LF] @ ''UART2: No data for 5 sec'' @ [CR, LF]"

fun uart2_loop :: "int \<Rightarrow> sysret list \<Rightarrow> event list \<times> sysret list option" where
  "uart2_loop fd [] = ([Select (fd + 1) [fd] 5 0], None)"
| "uart2_loop fd (s # rs) =
     (let ret = rv s in
      if ret > 0 then
        (case rs of
           [] \<Rightarrow> ([Select (fd + 1) [fd] 5 0, Read fd 128], None)
         | r # rs' \<Rightarrow>
             (let ret = rv r; rdbuf = store (data r) (replicate 128 None) in
              if ret < 0 then
                ([Select (fd + 1) [fd] 5 0, Read fd 128,
                  Printf (''UART2: fail to read from uart: %d'' @ [LF]) [IntArg (errno r)]],
                 Some rs')
              else
                (case rs' of
                   [] \<Rightarrow>
                     ([Select (fd + 1) [fd] 5 0, Read fd 128,
                       Write fd (take (nat ret) rdbuf) (nat ret)], None)
                 | w # rs'' \<Rightarrow>
                     emit [Select (fd + 1) [fd] 5 0, Read fd 128,
                           Write fd (take (nat ret) rdbuf) (nat ret)]
                       (uart2_loop fd rs''))))
      else if ret = - 1 then
        ([Select (fd + 1) [fd] 5 0,
          Printf (''UART2: Select error: %d'' @ [LF]) [IntArg (errno s)]], Some rs)
      else
        (case rs of
           [] \<Rightarrow>
             ([Select (fd + 1) [fd] 5 0,
               Write fd (map Some idle_notice) (strlen idle_notice)], None)
         | w # rs' \<Rightarrow>
             emit [Select (fd + 1) [fd] 5 0,
                   Write fd (map Some idle_notice) (strlen idle_notice),
                   Printf idle_notice []]
               (uart2_loop fd rs')))"

definition uart2_echo_task :: "bool \<Rightarrow> sysret list \<Rightarrow> event list \<times> status" where
  "uart2_echo_task soc script =
     (case script of
        [] \<Rightarrow> ([Open (PORT2 soc) O_RDWR], Blocked)
      | opened # s1 \<Rightarrow>
          (let fd = rv opened in
           if fd < 0 then
             ([Open (PORT2 soc) O_RDWR,
               Printf (''UART2: Error opening %s, err %d'' @ [LF])
                 [StrArg (PORT2 soc), IntArg (errno opened)]], Exited)
           else
             emit [Open (PORT2 soc) O_RDWR,
                   Printf (''UART2: %s open @ 115200'' @ [LF]) [StrArg (PORT2 soc)]]
               (case uart2_loop fd s1 of
                  (tr, None) \<Rightarrow> (tr, Blocked)
                | (tr, Some s2) \<Rightarrow> (tr, Exited))))"

subsection \<open>Observations on a trace\<close>

text \<open>The bytes a trace hands to \<^verbatim>\<open>write\<close>, in the order of the calls.\<close>

fun bytes_written :: "event list \<Rightarrow> cbyte list" where
  "bytes_written [] = []"
| "bytes_written (Write fd buf n # evs) = take n buf @ bytes_written evs"
| "bytes_written (e # evs) = bytes_written evs"

text \<open>
  The call in which a loop is blocked, waiting for the call to return: the last event of
  the trace of a loop that has not been left.
\<close>

definition pending :: "event list \<times> sysret list option \<Rightarrow> event option" where
  "pending res = (if snd res = None \<and> fst res \<noteq> [] then Some (last (fst res)) else None)"

subsection \<open>Complete cycles of task 2, as the environment supplies them\<close>

text \<open>
  The part of a script that one complete cycle of the loop of task 2 uses up is of one of
  two shapes: \<open>Idle_cycle s w\<close>, where \<open>s\<close> is what \<^verbatim>\<open>select\<close> returned and \<open>w\<close> what
  the \<^verbatim>\<open>write\<close> of the idle notice returned, and \<open>Data_cycle s r w\<close>, where \<open>s\<close> is
  what \<^verbatim>\<open>select\<close> returned, \<open>r\<close> what \<^verbatim>\<open>read\<close> returned and \<open>w\<close> what the echo
  \<^verbatim>\<open>write\<close> returned.
\<close>

datatype cycle = Idle_cycle sysret sysret | Data_cycle sysret sysret sysret

fun cycle_script :: "cycle \<Rightarrow> sysret list" where
  "cycle_script (Idle_cycle s w) = [s, w]"
| "cycle_script (Data_cycle s r w) = [s, r, w]"

text \<open>
  What the environment does in such a cycle: in an idle cycle \<^verbatim>\<open>select\<close> returns 0;
  in a data cycle \<^verbatim>\<open>select\<close> returns a positive number and \<^verbatim>\<open>read\<close> returns
  the number of bytes it delivered, at most the 128 it was asked for. Nothing is asked of
  what the \<^verbatim>\<open>write\<close> returns.
\<close>

fun cycle_ok :: "cycle \<Rightarrow> bool" where
  "cycle_ok (Idle_cycle s w) \<longleftrightarrow> rv s = 0"
| "cycle_ok (Data_cycle s r w) \<longleftrightarrow>
     0 < rv s \<and> rv r = int (length (data r)) \<and> length (data r) \<le> 128"

text \<open>
  The calls that the description of the idle-timeout channel expects of the task in such
  a cycle on descriptor \<open>fd\<close>: wait, then either write and print the idle notice (28
  characters), or read up to 128 bytes and write back the bytes read.
\<close>

fun expected_cycle_events :: "int \<Rightarrow> cycle \<Rightarrow> event list" where
  "expected_cycle_events fd (Idle_cycle s w) =
     [Select (fd + 1) [fd] 5 0, Write fd (map Some idle_notice) 28, Printf idle_notice []]"
| "expected_cycle_events fd (Data_cycle s r w) =
     [Select (fd + 1) [fd] 5 0, Read fd 128,
      Write fd (map Some (data r)) (length (data r))]"

section \<open>Properties of the URC handler\<close>

lemma sample_consts_simps:
  "URC_SYS_INIT_STATE_IND sample_consts = 0"
  "URC_SIM_CARD_STATE_IND sample_consts = 1"
  "URC_GSM_NW_STATE_IND sample_consts = 2"
  "URC_GPRS_NW_STATE_IND sample_consts = 3"
  "URC_CFUN_STATE_IND sample_consts = 4"
  "URC_COMING_CALL_IND sample_consts = 5"
  "URC_CALL_STATE_IND sample_consts = 6"
  "URC_NEW_SMS_IND sample_consts = 7"
  "URC_MODULE_VOLTAGE_IND sample_consts = 8"
  "URC_ALARM_RING_IND sample_consts = 9"
  "URC_FILE_DOWNLOAD_STATUS sample_consts = 10"
  "URC_FOTA_STARTED sample_consts = 11"
  "URC_FOTA_FINISHED sample_consts = 12"
  "URC_FOTA_FAILED sample_consts = 13"
  "URC_STKPCI_RSP_IND sample_consts = 14"
  "SYS_STATE_SMSOK sample_consts = 2"
  "SIM_STAT_NOT_INSERTED sample_consts = 0"
  "SIM_STAT_READY sample_consts = 1"
  "SIM_STAT_PIN_REQ sample_consts = 2"
  "SIM_STAT_PUK_REQ sample_consts = 3"
  "SIM_STAT_NOT_READY sample_consts = 4"
  "CALL_STATE_BUSY sample_consts = 0"
  "CALL_STATE_NO_ANSWER sample_consts = 1"
  "CALL_STATE_NO_CARRIER sample_consts = 2"
  "CALL_STATE_NO_DIALTONE sample_consts = 3"
  by (simp_all add: sample_consts_def)

lemma distinct_sample: "case_labels_distinct sample_consts"
  by (simp add: case_labels_distinct_def sample_consts_simps)



lemma case_labels_later_neq:
  assumes "case_labels_distinct c"
  shows "distinct [URC_STKPCI_RSP_IND c, URC_FOTA_FAILED c, URC_FOTA_FINISHED c,
                   URC_FOTA_STARTED c, URC_FILE_DOWNLOAD_STATUS c, URC_ALARM_RING_IND c,
                   URC_MODULE_VOLTAGE_IND c, URC_NEW_SMS_IND c, URC_CALL_STATE_IND c,
                   URC_COMING_CALL_IND c, URC_CFUN_STATE_IND c, URC_GPRS_NW_STATE_IND c,
                   URC_GSM_NW_STATE_IND c, URC_SIM_CARD_STATE_IND c, URC_SYS_INIT_STATE_IND c]"
    and "distinct [SIM_STAT_NOT_READY c, SIM_STAT_PUK_REQ c, SIM_STAT_PIN_REQ c,
                   SIM_STAT_READY c, SIM_STAT_NOT_INSERTED c]"
    and "distinct [CALL_STATE_NO_DIALTONE c, CALL_STATE_NO_CARRIER c, CALL_STATE_NO_ANSWER c,
                   CALL_STATE_BUSY c]"
proof -
  have "distinct (rev [URC_SYS_INIT_STATE_IND c, URC_SIM_CARD_STATE_IND c, URC_GSM_NW_STATE_IND c,
               URC_GPRS_NW_STATE_IND c, URC_CFUN_STATE_IND c, URC_COMING_CALL_IND c,
               URC_CALL_STATE_IND c, URC_NEW_SMS_IND c, URC_MODULE_VOLTAGE_IND c,
               URC_ALARM_RING_IND c, URC_FILE_DOWNLOAD_STATUS c, URC_FOTA_STARTED c,
               URC_FOTA_FINISHED c, URC_FOTA_FAILED c, URC_STKPCI_RSP_IND c])"
    and "distinct (rev [SIM_STAT_NOT_INSERTED c, SIM_STAT_READY c, SIM_STAT_PIN_REQ c,
               SIM_STAT_PUK_REQ c, SIM_STAT_NOT_READY c])"
    and "distinct (rev [CALL_STATE_BUSY c, CALL_STATE_NO_ANSWER c, CALL_STATE_NO_CARRIER c,
               CALL_STATE_NO_DIALTONE c])"
    using assms by (simp_all only: case_labels_distinct_def distinct_rev)
  then show "distinct [URC_STKPCI_RSP_IND c, URC_FOTA_FAILED c, URC_FOTA_FINISHED c,
                   URC_FOTA_STARTED c, URC_FILE_DOWNLOAD_STATUS c, URC_ALARM_RING_IND c,
                   URC_MODULE_VOLTAGE_IND c, URC_NEW_SMS_IND c, URC_CALL_STATE_IND c,
                   URC_COMING_CALL_IND c, URC_CFUN_STATE_IND c, URC_GPRS_NW_STATE_IND c,
                   URC_GSM_NW_STATE_IND c, URC_SIM_CARD_STATE_IND c, URC_SYS_INIT_STATE_IND c]"
    and "distinct [SIM_STAT_NOT_READY c, SIM_STAT_PUK_REQ c, SIM_STAT_PIN_REQ c,
                   SIM_STAT_READY c, SIM_STAT_NOT_INSERTED c]"
    and "distinct [CALL_STATE_NO_DIALTONE c, CALL_STATE_NO_CARRIER c, CALL_STATE_NO_ANSWER c,
                   CALL_STATE_BUSY c]"
    by (simp_all only: rev.simps append.simps)
qed

lemma urc_default:
  "param1 \<notin> {URC_SIM_CARD_STATE_IND c, URC_GSM_NW_STATE_IND c, URC_COMING_CALL_IND c,
               URC_CALL_STATE_IND c, URC_NEW_SMS_IND c, URC_MODULE_VOLTAGE_IND c}
   \<Longrightarrow> urc_callback c mem param1 param2 = Inr []"
  by (simp add: urc_callback_def)

lemma urc_reserved:
  assumes "case_labels_distinct c"
  shows "urc_callback c mem (URC_GPRS_NW_STATE_IND c) param2 = Inr []"
    and "urc_callback c mem (URC_CFUN_STATE_IND c) param2 = Inr []"
    and "urc_callback c mem (URC_ALARM_RING_IND c) param2 = Inr []"
    and "urc_callback c mem (URC_FILE_DOWNLOAD_STATUS c) param2 = Inr []"
    and "urc_callback c mem (URC_FOTA_STARTED c) param2 = Inr []"
    and "urc_callback c mem (URC_FOTA_FINISHED c) param2 = Inr []"
    and "urc_callback c mem (URC_FOTA_FAILED c) param2 = Inr []"
    and "urc_callback c mem (URC_STKPCI_RSP_IND c) param2 = Inr []"
  using case_labels_later_neq(1) [OF assms] by (simp_all add: urc_callback_def)

lemma urc_call_state:
  assumes "case_labels_distinct c"
  shows "urc_callback c mem (URC_CALL_STATE_IND c) param2 =
     (if param2 = CALL_STATE_BUSY c then
          Inr [Debug DBG_OFF (''The number you dialed is busy now'' @ [LF]) []]
        else if param2 = CALL_STATE_NO_ANSWER c then
          Inr [Debug DBG_OFF (''The number you dialed has no answer'' @ [LF]) []]
        else if param2 = CALL_STATE_NO_CARRIER c then
          Inr [Debug DBG_OFF (''The number you dialed cannot reach'' @ [LF]) []]
        else if param2 = CALL_STATE_NO_DIALTONE c then
          Inr [Debug DBG_OFF (''No Dial tone'' @ [LF]) []]
        else Inr [])"
  using case_labels_later_neq(1) [OF assms] by (simp add: urc_callback_def)

lemma urc_sim_card_state:
  assumes "case_labels_distinct c"
  shows "urc_callback c mem (URC_SIM_CARD_STATE_IND c) param2 =
       (if param2 = SIM_STAT_NOT_INSERTED c then
          Inr [Debug DBG_OFF (''SYSTEM: SIM card not inserted!'' @ [LF]) []]
        else if param2 = SIM_STAT_READY c then
          Inr [Debug DBG_INFO (''SYSTEM: SIM card Ready!'' @ [LF]) []]
        else if param2 = SIM_STAT_PIN_REQ c then
          Inr [Debug DBG_OFF (''SYSTEM: SIM PIN required!'' @ [LF]) []]
        else if param2 = SIM_STAT_PUK_REQ c then
          Inr [Debug DBG_OFF (''SYSTEM: SIM PUK required!'' @ [LF]) []]
        else if param2 = SIM_STAT_NOT_READY c then
          Inr [Debug DBG_OFF (''SYSTEM: SIM card not recognized!'' @ [LF]) []]
        else
          Inr [Debug DBG_OFF (''SYSTEM: SIM ERROR: %d'' @ [LF]) [UIntArg param2]])"
  using case_labels_later_neq(1) [OF assms] by (simp add: urc_callback_def)

lemma urc_coming_call:
  assumes "case_labels_distinct c"
  shows "urc_callback c mem (URC_COMING_CALL_IND c) param2 =
       (case mem param2 of
          None \<Rightarrow> Inl (Invalid_pointer param2)
        | Some info \<Rightarrow>
            Inr [Debug DBG_OFF (''Incoming voice call from: %s'' @ [LF]) [StrArg (number info)]])"
  using case_labels_later_neq(1) [OF assms] by (simp add: urc_callback_def)

text \<open>
  Claim C6. An event code that is none of the case labels, each of the reserved codes
  (GPRS, CFUN, alarm, file download, the three FOTA codes, SIM toolkit), a call-state
  event whose parameter is none of the four handled call states, and the system-init
  event with any parameter: the handler logs nothing and returns normally.
\<close>

theorem urc_callback_unhandled_noop:
  assumes "case_labels_distinct c"
  shows "(param1 \<notin> {URC_SYS_INIT_STATE_IND c, URC_SIM_CARD_STATE_IND c, URC_GSM_NW_STATE_IND c,
               URC_GPRS_NW_STATE_IND c, URC_CFUN_STATE_IND c, URC_COMING_CALL_IND c,
               URC_CALL_STATE_IND c, URC_NEW_SMS_IND c, URC_MODULE_VOLTAGE_IND c,
               URC_ALARM_RING_IND c, URC_FILE_DOWNLOAD_STATUS c, URC_FOTA_STARTED c,
               URC_FOTA_FINISHED c, URC_FOTA_FAILED c, URC_STKPCI_RSP_IND c}
           \<longrightarrow> urc_callback c mem param1 param2 = Inr []) \<and>
         (param1 \<in> {URC_GPRS_NW_STATE_IND c, URC_CFUN_STATE_IND c, URC_ALARM_RING_IND c,
               URC_FILE_DOWNLOAD_STATUS c, URC_FOTA_STARTED c, URC_FOTA_FINISHED c,
               URC_FOTA_FAILED c, URC_STKPCI_RSP_IND c}
           \<longrightarrow> urc_callback c mem param1 param2 = Inr []) \<and>
         (param1 = URC_CALL_STATE_IND c \<and>
          param2 \<notin> {CALL_STATE_BUSY c, CALL_STATE_NO_ANSWER c, CALL_STATE_NO_CARRIER c,
               CALL_STATE_NO_DIALTONE c}
           \<longrightarrow> urc_callback c mem param1 param2 = Inr []) \<and>
         (param1 = URC_SYS_INIT_STATE_IND c \<longrightarrow> urc_callback c mem param1 param2 = Inr [])"
proof (intro conjI impI)
  assume "param1 \<notin> {URC_SYS_INIT_STATE_IND c, URC_SIM_CARD_STATE_IND c, URC_GSM_NW_STATE_IND c,
               URC_GPRS_NW_STATE_IND c, URC_CFUN_STATE_IND c, URC_COMING_CALL_IND c,
               URC_CALL_STATE_IND c, URC_NEW_SMS_IND c, URC_MODULE_VOLTAGE_IND c,
               URC_ALARM_RING_IND c, URC_FILE_DOWNLOAD_STATUS c, URC_FOTA_STARTED c,
               URC_FOTA_FINISHED c, URC_FOTA_FAILED c, URC_STKPCI_RSP_IND c}"
  then have "param1 \<notin> {URC_SIM_CARD_STATE_IND c, URC_GSM_NW_STATE_IND c, URC_COMING_CALL_IND c,
               URC_CALL_STATE_IND c, URC_NEW_SMS_IND c, URC_MODULE_VOLTAGE_IND c}"
    by simp
  then show "urc_callback c mem param1 param2 = Inr []"
    by (rule urc_default)
next
  assume "param1 \<in> {URC_GPRS_NW_STATE_IND c, URC_CFUN_STATE_IND c, URC_ALARM_RING_IND c,
               URC_FILE_DOWNLOAD_STATUS c, URC_FOTA_STARTED c, URC_FOTA_FINISHED c,
               URC_FOTA_FAILED c, URC_STKPCI_RSP_IND c}"
  then show "urc_callback c mem param1 param2 = Inr []"
    using urc_reserved [OF assms] by (elim insertE emptyE) simp_all
next
  assume "param1 = URC_CALL_STATE_IND c \<and>
          param2 \<notin> {CALL_STATE_BUSY c, CALL_STATE_NO_ANSWER c, CALL_STATE_NO_CARRIER c,
               CALL_STATE_NO_DIALTONE c}"
  then show "urc_callback c mem param1 param2 = Inr []"
    by (simp add: urc_call_state [OF assms])
next
  assume "param1 = URC_SYS_INIT_STATE_IND c"
  then show "urc_callback c mem param1 param2 = Inr []"
    by (simp add: urc_callback_def)
qed

theorem urc_callback_unhandled_noop_witness:
  "case_labels_distinct sample_consts \<and>
   urc_callback sample_consts Map.empty 99 7 = Inr [] \<and>
   urc_callback sample_consts Map.empty 3 7 = Inr [] \<and>
   urc_callback sample_consts Map.empty 6 7 = Inr [] \<and>
   urc_callback sample_consts Map.empty 0 7 = Inr []"
proof -
  note d = distinct_sample
  have "urc_callback sample_consts Map.empty 99 7 = Inr []"
    using urc_callback_unhandled_noop [OF d, of 99 Map.empty 7]
    by (simp add: sample_consts_simps)
  moreover have "urc_callback sample_consts Map.empty 3 7 = Inr []"
    using urc_callback_unhandled_noop [OF d, of 3 Map.empty 7]
    by (simp add: sample_consts_simps)
  moreover have "urc_callback sample_consts Map.empty 6 7 = Inr []"
    using urc_callback_unhandled_noop [OF d, of 6 Map.empty 7]
    by (simp add: sample_consts_simps)
  moreover have "urc_callback sample_consts Map.empty 0 7 = Inr []"
    using urc_callback_unhandled_noop [OF d, of 0 Map.empty 7]
    by (simp add: sample_consts_simps)
  ultimately show ?thesis using d by simp
qed

text \<open>
  Claim C7. On the SIM-status event each of the five enumerated parameter values yields
  its own log line, the five lines are pairwise different, every other parameter value
  yields the line that carries the raw parameter (and that line is none of the five), and
  for every parameter value the handler returns exactly one log line.
\<close>

theorem urc_callback_sim_status:
  assumes "case_labels_distinct c"
  shows "urc_callback c mem (URC_SIM_CARD_STATE_IND c) (SIM_STAT_NOT_INSERTED c) =
           Inr [Debug DBG_OFF (''SYSTEM: SIM card not inserted!'' @ [LF]) []] \<and>
         urc_callback c mem (URC_SIM_CARD_STATE_IND c) (SIM_STAT_READY c) =
           Inr [Debug DBG_INFO (''SYSTEM: SIM card Ready!'' @ [LF]) []] \<and>
         urc_callback c mem (URC_SIM_CARD_STATE_IND c) (SIM_STAT_PIN_REQ c) =
           Inr [Debug DBG_OFF (''SYSTEM: SIM PIN required!'' @ [LF]) []] \<and>
         urc_callback c mem (URC_SIM_CARD_STATE_IND c) (SIM_STAT_PUK_REQ c) =
           Inr [Debug DBG_OFF (''SYSTEM: SIM PUK required!'' @ [LF]) []] \<and>
         urc_callback c mem (URC_SIM_CARD_STATE_IND c) (SIM_STAT_NOT_READY c) =
           Inr [Debug DBG_OFF (''SYSTEM: SIM card not recognized!'' @ [LF]) []] \<and>
         (param2 \<notin> {SIM_STAT_NOT_INSERTED c, SIM_STAT_READY c, SIM_STAT_PIN_REQ c,
                     SIM_STAT_PUK_REQ c, SIM_STAT_NOT_READY c} \<longrightarrow>
            urc_callback c mem (URC_SIM_CARD_STATE_IND c) param2 =
              Inr [Debug DBG_OFF (''SYSTEM: SIM ERROR: %d'' @ [LF]) [UIntArg param2]] \<and>
            urc_callback c mem (URC_SIM_CARD_STATE_IND c) param2 \<notin>
              urc_callback c mem (URC_SIM_CARD_STATE_IND c) `
                {SIM_STAT_NOT_INSERTED c, SIM_STAT_READY c, SIM_STAT_PIN_REQ c,
                 SIM_STAT_PUK_REQ c, SIM_STAT_NOT_READY c}) \<and>
         distinct (map (urc_callback c mem (URC_SIM_CARD_STATE_IND c))
                     [SIM_STAT_NOT_INSERTED c, SIM_STAT_READY c, SIM_STAT_PIN_REQ c,
                      SIM_STAT_PUK_REQ c, SIM_STAT_NOT_READY c]) \<and>
         (\<exists>line. urc_callback c mem (URC_SIM_CARD_STATE_IND c) param2 = Inr [line])"
proof -
  note sim = urc_sim_card_state [OF assms]
  note neq = case_labels_later_neq(2) [OF assms]
  have 1: "urc_callback c mem (URC_SIM_CARD_STATE_IND c) (SIM_STAT_NOT_INSERTED c) =
           Inr [Debug DBG_OFF (''SYSTEM: SIM card not inserted!'' @ [LF]) []]"
    by (simp add: sim)
  have 2: "urc_callback c mem (URC_SIM_CARD_STATE_IND c) (SIM_STAT_READY c) =
           Inr [Debug DBG_INFO (''SYSTEM: SIM card Ready!'' @ [LF]) []]"
    using neq by (simp add: sim)
  have 3: "urc_callback c mem (URC_SIM_CARD_STATE_IND c) (SIM_STAT_PIN_REQ c) =
           Inr [Debug DBG_OFF (''SYSTEM: SIM PIN required!'' @ [LF]) []]"
    using neq by (simp add: sim)
  have 4: "urc_callback c mem (URC_SIM_CARD_STATE_IND c) (SIM_STAT_PUK_REQ c) =
           Inr [Debug DBG_OFF (''SYSTEM: SIM PUK required!'' @ [LF]) []]"
    using neq by (simp add: sim)
  have 5: "urc_callback c mem (URC_SIM_CARD_STATE_IND c) (SIM_STAT_NOT_READY c) =
           Inr [Debug DBG_OFF (''SYSTEM: SIM card not recognized!'' @ [LF]) []]"
    using neq by (simp add: sim)
  have 6: "urc_callback c mem (URC_SIM_CARD_STATE_IND c) param2 =
              Inr [Debug DBG_OFF (''SYSTEM: SIM ERROR: %d'' @ [LF]) [UIntArg param2]]"
    if "param2 \<notin> {SIM_STAT_NOT_INSERTED c, SIM_STAT_READY c, SIM_STAT_PIN_REQ c,
                     SIM_STAT_PUK_REQ c, SIM_STAT_NOT_READY c}"
    using that by (simp add: sim)
  have 7: "urc_callback c mem (URC_SIM_CARD_STATE_IND c) param2 \<notin>
              urc_callback c mem (URC_SIM_CARD_STATE_IND c) `
                {SIM_STAT_NOT_INSERTED c, SIM_STAT_READY c, SIM_STAT_PIN_REQ c,
                 SIM_STAT_PUK_REQ c, SIM_STAT_NOT_READY c}"
    if "param2 \<notin> {SIM_STAT_NOT_INSERTED c, SIM_STAT_READY c, SIM_STAT_PIN_REQ c,
                     SIM_STAT_PUK_REQ c, SIM_STAT_NOT_READY c}"
    by (simp add: 1 2 3 4 5 6 [OF that])
  have 8: "distinct (map (urc_callback c mem (URC_SIM_CARD_STATE_IND c))
                     [SIM_STAT_NOT_INSERTED c, SIM_STAT_READY c, SIM_STAT_PIN_REQ c,
                      SIM_STAT_PUK_REQ c, SIM_STAT_NOT_READY c])"
    by (simp add: 1 2 3 4 5)
  have 9: "\<exists>line. urc_callback c mem (URC_SIM_CARD_STATE_IND c) param2 = Inr [line]"
    by (simp add: sim)
  from 1 2 3 4 5 6 7 8 9 show ?thesis by blast
qed

theorem urc_callback_sim_status_witness:
  "case_labels_distinct sample_consts \<and>
   urc_callback sample_consts Map.empty 1 1 =
     Inr [Debug DBG_INFO (''SYSTEM: SIM card Ready!'' @ [LF]) []] \<and>
   urc_callback sample_consts Map.empty 1 9 =
     Inr [Debug DBG_OFF (''SYSTEM: SIM ERROR: %d'' @ [LF]) [UIntArg 9]]"
  using urc_callback_sim_status [OF distinct_sample, of Map.empty 9] distinct_sample
  by (simp add: sample_consts_simps)

lemma urc_no_deref:
  "param1 \<noteq> URC_COMING_CALL_IND c \<Longrightarrow>
   urc_callback c mem param1 param2 = urc_callback c Map.empty param1 param2"
  by (simp add: urc_callback_def cong: if_cong split del: if_split)

lemma urc_no_fault_isl:
  "param1 \<noteq> URC_COMING_CALL_IND c \<Longrightarrow> \<not> isl (urc_callback c mem param1 param2)"
  by (simp add: urc_callback_def if_distrib [of isl] cong: if_cong split del: if_split)

lemma urc_no_fault:
  "param1 \<noteq> URC_COMING_CALL_IND c \<Longrightarrow> \<exists>evs. urc_callback c mem param1 param2 = Inr evs"
  using urc_no_fault_isl [of param1 c mem param2]
  by (cases "urc_callback c mem param1 param2") simp_all

text \<open>
  Claim C10. On the incoming-call event the handler reads the call-info structure through
  the parameter: it faults when the parameter is not the address of a valid structure and
  logs the number field when it is. On every other event code the handler never reads
  memory: it returns normally and its result does not depend on the memory at all.
\<close>

theorem urc_callback_pointer_use:
  assumes "case_labels_distinct c"
  shows "(param1 = URC_COMING_CALL_IND c \<longrightarrow>
            (mem param2 = None \<longrightarrow>
               urc_callback c mem param1 param2 = Inl (Invalid_pointer param2)) \<and>
            (\<forall>info. mem param2 = Some info \<longrightarrow>
               urc_callback c mem param1 param2 =
                 Inr [Debug DBG_OFF (''Incoming voice call from: %s'' @ [LF])
                        [StrArg (number info)]])) \<and>
         (param1 \<noteq> URC_COMING_CALL_IND c \<longrightarrow>
            (\<exists>evs. urc_callback c mem param1 param2 = Inr evs) \<and>
            (\<forall>mem'. urc_callback c mem' param1 param2 = urc_callback c mem param1 param2))"
proof (intro conjI impI allI)
  assume "param1 = URC_COMING_CALL_IND c" "mem param2 = None"
  then show "urc_callback c mem param1 param2 = Inl (Invalid_pointer param2)"
    by (simp add: urc_coming_call [OF assms])
next
  fix info
  assume "param1 = URC_COMING_CALL_IND c" "mem param2 = Some info"
  then show "urc_callback c mem param1 param2 =
                 Inr [Debug DBG_OFF (''Incoming voice call from: %s'' @ [LF])
                        [StrArg (number info)]]"
    by (simp add: urc_coming_call [OF assms])
next
  assume "param1 \<noteq> URC_COMING_CALL_IND c"
  then show "\<exists>evs. urc_callback c mem param1 param2 = Inr evs"
    by (rule urc_no_fault)
next
  fix mem'
  assume "param1 \<noteq> URC_COMING_CALL_IND c"
  then show "urc_callback c mem' param1 param2 = urc_callback c mem param1 param2"
    using urc_no_deref [of param1 c mem param2] urc_no_deref [of param1 c mem' param2]
    by simp
qed

theorem urc_callback_pointer_use_witness:
  "case_labels_distinct sample_consts \<and>
   urc_callback sample_consts Map.empty 5 4096 = Inl (Invalid_pointer 4096) \<and>
   urc_callback sample_consts [4096 \<mapsto> \<lparr>number = ''5550100''\<rparr>] 5 4096 =
     Inr [Debug DBG_OFF (''Incoming voice call from: %s'' @ [LF]) [StrArg ''5550100'']] \<and>
   urc_callback sample_consts [4096 \<mapsto> \<lparr>number = ''5550100''\<rparr>] 7 4096 =
     urc_callback sample_consts Map.empty 7 4096"
proof -
  note d = distinct_sample
  have "urc_callback sample_consts Map.empty 5 4096 = Inl (Invalid_pointer 4096)"
    using urc_callback_pointer_use [OF d, of 5 Map.empty 4096]
    by (simp add: sample_consts_simps)
  moreover have "urc_callback sample_consts [4096 \<mapsto> \<lparr>number = ''5550100''\<rparr>] 5 4096 =
     Inr [Debug DBG_OFF (''Incoming voice call from: %s'' @ [LF]) [StrArg ''5550100'']]"
    using urc_callback_pointer_use [OF d, of 5 "[4096 \<mapsto> \<lparr>number = ''5550100''\<rparr>]" 4096]
    by (simp add: sample_consts_simps)
  moreover have "urc_callback sample_consts [4096 \<mapsto> \<lparr>number = ''5550100''\<rparr>] 7 4096 =
     urc_callback sample_consts Map.empty 7 4096"
    using urc_callback_pointer_use [OF d, of 7 Map.empty 4096]
    by (simp add: sample_consts_simps)
  ultimately show ?thesis using d by simp
qed

section \<open>Properties of the echo tasks\<close>

subsection \<open>Auxiliary facts\<close>

lemma emit_simps [simp]:
  "emit evs (tr, st) = (evs @ tr, st)"
  "fst (emit evs res) = evs @ fst res"
  "snd (emit evs res) = snd res"
  by (simp_all add: emit_def)

lemma emit_emit: "emit a (emit b res) = emit (a @ b) res"
  by (simp add: emit_def)

lemma emit_Nil: "emit [] res = res"
  by (simp add: emit_def)

lemma strlen_idle_notice: "strlen idle_notice = 28"
  by (simp add: strlen_def idle_notice_def CR_def LF_def NUL_def)

lemma bytes_written_append: "bytes_written (a @ b) = bytes_written a @ bytes_written b"
  by (induction a rule: bytes_written.induct) simp_all

lemma store_take:
  "length bs \<le> length buf \<Longrightarrow> take (length bs) (store bs buf) = map Some bs"
  by (simp add: store_def)

lemma uart1_loop_nonempty: "fst (uart1_loop fd script) \<noteq> []"
  by (cases script) (simp_all add: Let_def split: list.splits)

lemma uart2_loop_nonempty: "fst (uart2_loop fd script) \<noteq> []"
  by (cases script) (simp_all add: Let_def split: list.splits)

lemma pending_emit: "fst res \<noteq> [] \<Longrightarrow> pending (emit evs res) = pending res"
  by (simp add: pending_def)

subsection \<open>Failure to open the port\<close>

text \<open>
  Claim C8. When \<^verbatim>\<open>open\<close> returns a negative value, either task prints one
  diagnostic that carries the port name and \<^verbatim>\<open>errno\<close> and returns at once: the
  trace consists of the \<^verbatim>\<open>open\<close> call and that diagnostic, so there is no retry
  and no \<^verbatim>\<open>read\<close>, \<^verbatim>\<open>write\<close> or \<^verbatim>\<open>close\<close>, whatever else the script holds.
\<close>

theorem open_failure_terminates:
  assumes "rv opened < 0"
  shows "uart1_echo_task soc (opened # rest) =
           ([Open (PORT1 soc) O_RDWR,
             Printf (''UART1: Error opening %s, err %d'' @ [LF])
               [StrArg (PORT1 soc), IntArg (errno opened)]], Exited) \<and>
         uart2_echo_task soc (opened # rest) =
           ([Open (PORT2 soc) O_RDWR,
             Printf (''UART2: Error opening %s, err %d'' @ [LF])
               [StrArg (PORT2 soc), IntArg (errno opened)]], Exited)"
  using assms by (simp add: uart1_echo_task_def uart2_echo_task_def)

theorem open_failure_terminates_witness:
  "rv \<lparr>rv = - 1, errno = 2, data = []\<rparr> < 0 \<and>
   uart1_echo_task False [\<lparr>rv = - 1, errno = 2, data = []\<rparr>] =
     ([Open ''/dev/ttyS1'' O_RDWR,
       Printf (''UART1: Error opening %s, err %d'' @ [LF]) [StrArg ''/dev/ttyS1'', IntArg 2]],
      Exited) \<and>
   uart2_echo_task False [\<lparr>rv = - 1, errno = 2, data = []\<rparr>] =
     ([Open ''/dev/ttyS2'' O_RDWR,
       Printf (''UART2: Error opening %s, err %d'' @ [LF]) [StrArg ''/dev/ttyS2'', IntArg 2]],
      Exited)"
  using open_failure_terminates [of "\<lparr>rv = - 1, errno = 2, data = []\<rparr>" False "[]"]
  by (simp add: PORT1_def PORT2_def)

subsection \<open>Task 1 echoes byte by byte\<close>

lemma uart1_loop_cycle:
  assumes "rv r = 1" "length (data r) = 1"
  shows "uart1_loop fd (r # w # rest) =
           emit [Read fd 1, Write fd (map Some (data r)) 1] (uart1_loop fd rest)"
  using assms by (simp add: store_def)

lemma uart1_loop_echo:
  assumes "\<forall>(r, w) \<in> set cyc. rv r = 1 \<and> length (data r) = 1"
  shows "uart1_loop fd (concat (map (\<lambda>(r, w). [r, w]) cyc) @ rest) =
           emit (concat (map (\<lambda>(r, w). [Read fd 1, Write fd (map Some (data r)) 1]) cyc))
             (uart1_loop fd rest)"
  using assms
proof (induction cyc)
  case Nil
  show ?case by (simp add: emit_Nil)
next
  case (Cons p cyc)
  obtain r w where p: "p = (r, w)" by (cases p)
  from Cons.prems p have r: "rv r = 1" "length (data r) = 1" by simp_all
  from Cons.prems have "\<forall>(r, w) \<in> set cyc. rv r = 1 \<and> length (data r) = 1" by simp
  then have IH: "uart1_loop fd (concat (map (\<lambda>(r, w). [r, w]) cyc) @ rest) =
           emit (concat (map (\<lambda>(r, w). [Read fd 1, Write fd (map Some (data r)) 1]) cyc))
             (uart1_loop fd rest)"
    by (rule Cons.IH)
  show ?case
    by (simp add: p uart1_loop_cycle [OF r] IH emit_emit del: uart1_loop.simps)
qed

lemma bytes_written_echo:
  assumes "\<forall>(r, w) \<in> set cyc. rv r = 1 \<and> length (data r) = 1"
  shows "bytes_written (concat (map (\<lambda>(r, w). [Read fd 1, Write fd (map Some (data r)) 1]) cyc)) =
           map Some (concat (map (\<lambda>(r, w). data r) cyc))"
  using assms by (induction cyc) auto

text \<open>
  Claim C1. After a successful \<^verbatim>\<open>open\<close>, when every \<^verbatim>\<open>read\<close> returns 1 and
  delivers one byte, the trace of task 1 is the opening sequence followed, for each byte
  in turn, by the \<^verbatim>\<open>read\<close> call and then the \<^verbatim>\<open>write\<close> of the byte just read;
  the task is then blocked in the next \<^verbatim>\<open>read\<close>. So the write of byte N comes after
  the read of byte N and before the read of byte N+1, and the bytes written are the bytes
  delivered, in the same order. What the \<^verbatim>\<open>write\<close> calls return plays no role.
\<close>

theorem uart1_echo_in_order:
  assumes "0 \<le> rv opened"
    and "\<forall>(r, w) \<in> set cyc. rv r = 1 \<and> length (data r) = 1"
  shows "uart1_echo_task soc (opened # got # applied # concat (map (\<lambda>(r, w). [r, w]) cyc)) =
           ([Open (PORT1 soc) O_RDWR, Tcgetattr (rv opened), Cfsetspeed B9600,
             Tcsetattr (rv opened) TCSANOW,
             Printf (''UART1: %s open @ 9600'' @ [LF]) [StrArg (PORT1 soc)]] @
            concat (map (\<lambda>(r, w). [Read (rv opened) 1, Write (rv opened) (map Some (data r)) 1])
                     cyc) @
            [Read (rv opened) 1], Blocked) \<and>
         bytes_written
           (fst (uart1_echo_task soc (opened # got # applied # concat (map (\<lambda>(r, w). [r, w]) cyc)))) =
           map Some (concat (map (\<lambda>(r, w). data r) cyc))"
proof -
  have loop: "uart1_loop (rv opened) (concat (map (\<lambda>(r, w). [r, w]) cyc)) =
     (concat (map (\<lambda>(r, w). [Read (rv opened) 1, Write (rv opened) (map Some (data r)) 1]) cyc) @
      [Read (rv opened) 1], None)"
    using uart1_loop_echo [OF assms(2), of "rv opened" "[]"] by (simp add: emit_def)
  have task: "uart1_echo_task soc (opened # got # applied # concat (map (\<lambda>(r, w). [r, w]) cyc)) =
           ([Open (PORT1 soc) O_RDWR, Tcgetattr (rv opened), Cfsetspeed B9600,
             Tcsetattr (rv opened) TCSANOW,
             Printf (''UART1: %s open @ 9600'' @ [LF]) [StrArg (PORT1 soc)]] @
            concat (map (\<lambda>(r, w). [Read (rv opened) 1, Write (rv opened) (map Some (data r)) 1])
                     cyc) @
            [Read (rv opened) 1], Blocked)"
    using assms(1) by (simp add: uart1_echo_task_def loop Let_def)
  show ?thesis
    unfolding task
    using bytes_written_echo [OF assms(2), of "rv opened"]
    by (simp add: bytes_written_append)
qed

theorem uart1_echo_in_order_witness:
  "(0::int) \<le> rv \<lparr>rv = 3, errno = 0, data = []\<rparr> \<and>
   uart1_echo_task False
     [\<lparr>rv = 3, errno = 0, data = []\<rparr>, \<lparr>rv = 0, errno = 0, data = []\<rparr>,
      \<lparr>rv = 0, errno = 0, data = []\<rparr>,
      \<lparr>rv = 1, errno = 0, data = ''a''\<rparr>, \<lparr>rv = 1, errno = 0, data = []\<rparr>,
      \<lparr>rv = 1, errno = 0, data = ''b''\<rparr>, \<lparr>rv = - 1, errno = 5, data = []\<rparr>,
      \<lparr>rv = 1, errno = 0, data = ''c''\<rparr>, \<lparr>rv = 1, errno = 0, data = []\<rparr>] =
     ([Open ''/dev/ttyS1'' O_RDWR, Tcgetattr 3, Cfsetspeed B9600, Tcsetattr 3 TCSANOW,
       Printf (''UART1: %s open @ 9600'' @ [LF]) [StrArg ''/dev/ttyS1''],
       Read 3 1, Write 3 [Some CHR ''a''] 1,
       Read 3 1, Write 3 [Some CHR ''b''] 1,
       Read 3 1, Write 3 [Some CHR ''c''] 1,
       Read 3 1], Blocked)"
  using uart1_echo_in_order
    [of "\<lparr>rv = 3, errno = 0, data = []\<rparr>"
        "[(\<lparr>rv = 1, errno = 0, data = ''a''\<rparr>, \<lparr>rv = 1, errno = 0, data = []\<rparr>),
          (\<lparr>rv = 1, errno = 0, data = ''b''\<rparr>, \<lparr>rv = - 1, errno = 5, data = []\<rparr>),
          (\<lparr>rv = 1, errno = 0, data = ''c''\<rparr>, \<lparr>rv = 1, errno = 0, data = []\<rparr>)]"
        False "\<lparr>rv = 0, errno = 0, data = []\<rparr>" "\<lparr>rv = 0, errno = 0, data = []\<rparr>"]
  by (simp add: PORT1_def)

subsection \<open>Task 2: one cycle of the loop\<close>

lemma uart2_loop_ready:
  assumes "0 < rv s"
  shows "uart2_loop fd [s] = ([Select (fd + 1) [fd] 5 0, Read fd 128], None)"
    and "0 \<le> rv r \<Longrightarrow> rv r = int (length (data r)) \<Longrightarrow> length (data r) \<le> 128 \<Longrightarrow>
         uart2_loop fd (s # r # w # rest) =
           emit [Select (fd + 1) [fd] 5 0, Read fd 128,
                 Write fd (map Some (data r)) (length (data r))]
             (uart2_loop fd rest)"
    and "0 \<le> rv r \<Longrightarrow> rv r = int (length (data r)) \<Longrightarrow> length (data r) \<le> 128 \<Longrightarrow>
         uart2_loop fd [s, r] =
           ([Select (fd + 1) [fd] 5 0, Read fd 128,
             Write fd (map Some (data r)) (length (data r))], None)"
    and "rv r < 0 \<Longrightarrow>
         uart2_loop fd (s # r # rest) =
           ([Select (fd + 1) [fd] 5 0, Read fd 128,
             Printf (''UART2: fail to read from uart: %d'' @ [LF]) [IntArg (errno r)]],
            Some rest)"
proof -
  show "uart2_loop fd [s] = ([Select (fd + 1) [fd] 5 0, Read fd 128], None)"
    using assms by simp
next
  assume r: "0 \<le> rv r" "rv r = int (length (data r))" "length (data r) \<le> 128"
  then have t: "take (nat (rv r)) (store (data r) (replicate 128 None)) = map Some (data r)"
    using store_take [of "data r" "replicate 128 None"] by simp
  from t r assms show "uart2_loop fd (s # r # w # rest) =
           emit [Select (fd + 1) [fd] 5 0, Read fd 128,
                 Write fd (map Some (data r)) (length (data r))]
             (uart2_loop fd rest)"
    by (simp add: Let_def)
  from t r assms show "uart2_loop fd [s, r] =
           ([Select (fd + 1) [fd] 5 0, Read fd 128,
             Write fd (map Some (data r)) (length (data r))], None)"
    by (simp add: Let_def)
next
  assume "rv r < 0"
  with assms show "uart2_loop fd (s # r # rest) =
           ([Select (fd + 1) [fd] 5 0, Read fd 128,
             Printf (''UART2: fail to read from uart: %d'' @ [LF]) [IntArg (errno r)]],
            Some rest)"
    by simp
qed

lemma uart2_loop_idle:
  assumes "rv s = 0"
  shows "uart2_loop fd (s # w # rest) =
           emit [Select (fd + 1) [fd] 5 0,
                 Write fd (map Some idle_notice) 28,
                 Printf idle_notice []]
             (uart2_loop fd rest)"
    and "uart2_loop fd [s] =
           ([Select (fd + 1) [fd] 5 0,
             Write fd (map Some idle_notice) 28], None)"
  using assms by (simp_all add: strlen_idle_notice)


text \<open>After a successful \<^verbatim>\<open>open\<close>, task 2 is its announcement followed by its loop.\<close>

lemma uart2_echo_task_opened:
  assumes "0 \<le> rv opened"
  shows "uart2_echo_task soc (opened # script) =
           ([Open (PORT2 soc) O_RDWR,
             Printf (''UART2: %s open @ 115200'' @ [LF]) [StrArg (PORT2 soc)]] @
            fst (uart2_loop (rv opened) script),
            case snd (uart2_loop (rv opened) script) of None \<Rightarrow> Blocked | Some left \<Rightarrow> Exited)"
  using assms
  by (cases "uart2_loop (rv opened) script")
     (simp add: uart2_echo_task_def Let_def split: option.splits)

subsection \<open>Task 2: any number of complete cycles\<close>

lemma uart2_loop_cycle:
  assumes "cycle_ok c"
  shows "uart2_loop fd (cycle_script c @ rest) =
           emit (expected_cycle_events fd c) (uart2_loop fd rest)"
proof (cases c)
  case (Idle_cycle s w)
  with assms show ?thesis
    by (simp add: uart2_loop_idle(1) del: uart2_loop.simps)
next
  case (Data_cycle s r w)
  with assms show ?thesis
    by (simp add: uart2_loop_ready(2) del: uart2_loop.simps)
qed

lemma uart2_loop_cycles:
  assumes "\<forall>c \<in> set cyc. cycle_ok c"
  shows "uart2_loop fd (concat (map cycle_script cyc) @ rest) =
           emit (concat (map (expected_cycle_events fd) cyc)) (uart2_loop fd rest)"
  using assms
proof (induction cyc)
  case Nil
  show ?case by (simp add: emit_Nil)
next
  case (Cons c cyc)
  from Cons.prems have c: "cycle_ok c" and "\<forall>c \<in> set cyc. cycle_ok c"
    by simp_all
  then have IH: "uart2_loop fd (concat (map cycle_script cyc) @ rest) =
           emit (concat (map (expected_cycle_events fd) cyc)) (uart2_loop fd rest)"
    using Cons.IH by simp
  show ?case
    using uart2_loop_cycle [OF c, of fd "concat (map cycle_script cyc) @ rest"]
    by (simp add: IH emit_emit del: uart2_loop.simps)
qed

lemma uart2_task_cycles:
  assumes "0 \<le> rv opened" and "\<forall>c \<in> set cyc. cycle_ok c"
  shows "uart2_echo_task soc (opened # concat (map cycle_script cyc) @ rest) =
           ([Open (PORT2 soc) O_RDWR,
             Printf (''UART2: %s open @ 115200'' @ [LF]) [StrArg (PORT2 soc)]] @
            concat (map (expected_cycle_events (rv opened)) cyc) @
            fst (uart2_loop (rv opened) rest),
            case snd (uart2_loop (rv opened) rest) of None \<Rightarrow> Blocked | Some left \<Rightarrow> Exited)"
  by (simp add: uart2_echo_task_opened [OF assms(1)] uart2_loop_cycles [OF assms(2)]
           del: uart2_loop.simps)

subsection \<open>Task 2: a cycle with data\<close>

text \<open>
  Claim C2. Let task 2 have opened its port, and let any number of complete cycles (idle
  or with data) have passed. When \<^verbatim>\<open>select\<close> then returns a positive value, the task
  makes one \<^verbatim>\<open>read\<close> call for up to 128 bytes. When that call returns the number of
  bytes it delivered (at most 128), the task makes one \<^verbatim>\<open>write\<close> call with exactly
  those bytes, in order, and once that call has returned it waits in \<^verbatim>\<open>select\<close>
  again. When the \<^verbatim>\<open>read\<close> fails, the task prints the read failure and returns. The
  cycle contains no idle notice: after the \<^verbatim>\<open>select\<close> its events are the
  \<^verbatim>\<open>read\<close> and the echo only (or the \<^verbatim>\<open>read\<close> and the failure message).
\<close>

theorem uart2_data_ready_cycle:
  assumes "0 \<le> rv opened"
    and "\<forall>c \<in> set cyc. cycle_ok c"
    and "0 < rv s"
  shows "uart2_echo_task soc (opened # concat (map cycle_script cyc) @ [s]) =
           ([Open (PORT2 soc) O_RDWR,
             Printf (''UART2: %s open @ 115200'' @ [LF]) [StrArg (PORT2 soc)]] @
            concat (map (expected_cycle_events (rv opened)) cyc) @
            [Select (rv opened + 1) [rv opened] 5 0, Read (rv opened) 128], Blocked) \<and>
         (rv r = int (length (data r)) \<and> length (data r) \<le> 128 \<longrightarrow>
            uart2_echo_task soc (opened # concat (map cycle_script cyc) @ [s, r]) =
              ([Open (PORT2 soc) O_RDWR,
                Printf (''UART2: %s open @ 115200'' @ [LF]) [StrArg (PORT2 soc)]] @
               concat (map (expected_cycle_events (rv opened)) cyc) @
               [Select (rv opened + 1) [rv opened] 5 0, Read (rv opened) 128,
                Write (rv opened) (map Some (data r)) (length (data r))], Blocked) \<and>
            uart2_echo_task soc (opened # concat (map cycle_script cyc) @ [s, r, w]) =
              ([Open (PORT2 soc) O_RDWR,
                Printf (''UART2: %s open @ 115200'' @ [LF]) [StrArg (PORT2 soc)]] @
               concat (map (expected_cycle_events (rv opened)) cyc) @
               [Select (rv opened + 1) [rv opened] 5 0, Read (rv opened) 128,
                Write (rv opened) (map Some (data r)) (length (data r)),
                Select (rv opened + 1) [rv opened] 5 0], Blocked)) \<and>
         (rv r < 0 \<longrightarrow>
            uart2_echo_task soc (opened # concat (map cycle_script cyc) @ s # r # rest) =
              ([Open (PORT2 soc) O_RDWR,
                Printf (''UART2: %s open @ 115200'' @ [LF]) [StrArg (PORT2 soc)]] @
               concat (map (expected_cycle_events (rv opened)) cyc) @
               [Select (rv opened + 1) [rv opened] 5 0, Read (rv opened) 128,
                Printf (''UART2: fail to read from uart: %d'' @ [LF]) [IntArg (errno r)]],
               Exited))"
proof (intro conjI impI)
  note task = uart2_task_cycles [OF assms(1,2)]
  note ready = uart2_loop_ready [OF assms(3)]
  show "uart2_echo_task soc (opened # concat (map cycle_script cyc) @ [s]) =
           ([Open (PORT2 soc) O_RDWR,
             Printf (''UART2: %s open @ 115200'' @ [LF]) [StrArg (PORT2 soc)]] @
            concat (map (expected_cycle_events (rv opened)) cyc) @
            [Select (rv opened + 1) [rv opened] 5 0, Read (rv opened) 128], Blocked)"
    by (simp add: task ready(1) del: uart2_loop.simps)
  show "uart2_echo_task soc (opened # concat (map cycle_script cyc) @ s # r # rest) =
              ([Open (PORT2 soc) O_RDWR,
                Printf (''UART2: %s open @ 115200'' @ [LF]) [StrArg (PORT2 soc)]] @
               concat (map (expected_cycle_events (rv opened)) cyc) @
               [Select (rv opened + 1) [rv opened] 5 0, Read (rv opened) 128,
                Printf (''UART2: fail to read from uart: %d'' @ [LF]) [IntArg (errno r)]],
               Exited)"
    if "rv r < 0"
    by (simp add: task ready(4) [OF that] del: uart2_loop.simps)
  assume r: "rv r = int (length (data r)) \<and> length (data r) \<le> 128"
  then have r': "0 \<le> rv r" "rv r = int (length (data r))" "length (data r) \<le> 128"
    by simp_all
  show "uart2_echo_task soc (opened # concat (map cycle_script cyc) @ [s, r]) =
              ([Open (PORT2 soc) O_RDWR,
                Printf (''UART2: %s open @ 115200'' @ [LF]) [StrArg (PORT2 soc)]] @
               concat (map (expected_cycle_events (rv opened)) cyc) @
               [Select (rv opened + 1) [rv opened] 5 0, Read (rv opened) 128,
                Write (rv opened) (map Some (data r)) (length (data r))], Blocked)"
    by (simp add: task ready(3) [OF r'] del: uart2_loop.simps)
  show "uart2_echo_task soc (opened # concat (map cycle_script cyc) @ [s, r, w]) =
              ([Open (PORT2 soc) O_RDWR,
                Printf (''UART2: %s open @ 115200'' @ [LF]) [StrArg (PORT2 soc)]] @
               concat (map (expected_cycle_events (rv opened)) cyc) @
               [Select (rv opened + 1) [rv opened] 5 0, Read (rv opened) 128,
                Write (rv opened) (map Some (data r)) (length (data r)),
                Select (rv opened + 1) [rv opened] 5 0], Blocked)"
    using uart2_loop_ready(2) [OF assms(3) r', of "rv opened" w "[]"]
    by (simp add: task del: uart2_loop.simps) simp
qed

theorem uart2_data_ready_cycle_witness:
  "uart2_echo_task False
     [\<lparr>rv = 3, errno = 0, data = []\<rparr>,
      \<lparr>rv = 0, errno = 0, data = []\<rparr>, \<lparr>rv = 28, errno = 0, data = []\<rparr>,
      \<lparr>rv = 1, errno = 0, data = []\<rparr>, \<lparr>rv = 2, errno = 0, data = ''hi''\<rparr>,
      \<lparr>rv = - 1, errno = 5, data = []\<rparr>] =
     ([Open ''/dev/ttyS2'' O_RDWR,
       Printf (''UART2: %s open @ 115200'' @ [LF]) [StrArg ''/dev/ttyS2''],
       Select 4 [3] 5 0, Write 3 (map Some idle_notice) 28, Printf idle_notice [],
       Select 4 [3] 5 0, Read 3 128, Write 3 [Some CHR ''h'', Some CHR ''i''] 2,
       Select 4 [3] 5 0], Blocked) \<and>
   uart2_echo_task False
     [\<lparr>rv = 3, errno = 0, data = []\<rparr>,
      \<lparr>rv = 0, errno = 0, data = []\<rparr>, \<lparr>rv = 28, errno = 0, data = []\<rparr>,
      \<lparr>rv = 1, errno = 0, data = []\<rparr>, \<lparr>rv = - 1, errno = 5, data = []\<rparr>] =
     ([Open ''/dev/ttyS2'' O_RDWR,
       Printf (''UART2: %s open @ 115200'' @ [LF]) [StrArg ''/dev/ttyS2''],
       Select 4 [3] 5 0, Write 3 (map Some idle_notice) 28, Printf idle_notice [],
       Select 4 [3] 5 0, Read 3 128,
       Printf (''UART2: fail to read from uart: %d'' @ [LF]) [IntArg 5]], Exited)"
proof -
  have o: "0 \<le> rv \<lparr>rv = 3, errno = 0, data = []\<rparr>"
    by simp
  have c: "\<forall>c \<in> set [Idle_cycle \<lparr>rv = 0, errno = 0, data = []\<rparr> \<lparr>rv = 28, errno = 0, data = []\<rparr>].
             cycle_ok c"
    by simp
  have s: "0 < rv \<lparr>rv = 1, errno = 0, data = []\<rparr>"
    by simp
  note t = uart2_data_ready_cycle [OF o c s, of False]
  have "uart2_echo_task False
     [\<lparr>rv = 3, errno = 0, data = []\<rparr>,
      \<lparr>rv = 0, errno = 0, data = []\<rparr>, \<lparr>rv = 28, errno = 0, data = []\<rparr>,
      \<lparr>rv = 1, errno = 0, data = []\<rparr>, \<lparr>rv = 2, errno = 0, data = ''hi''\<rparr>,
      \<lparr>rv = - 1, errno = 5, data = []\<rparr>] =
     ([Open ''/dev/ttyS2'' O_RDWR,
       Printf (''UART2: %s open @ 115200'' @ [LF]) [StrArg ''/dev/ttyS2''],
       Select 4 [3] 5 0, Write 3 (map Some idle_notice) 28, Printf idle_notice [],
       Select 4 [3] 5 0, Read 3 128, Write 3 [Some CHR ''h'', Some CHR ''i''] 2,
       Select 4 [3] 5 0], Blocked)"
    using t [of "\<lparr>rv = 2, errno = 0, data = ''hi''\<rparr>" "\<lparr>rv = - 1, errno = 5, data = []\<rparr>" "[]"]
    by (simp add: PORT2_def)
  moreover have "uart2_echo_task False
     [\<lparr>rv = 3, errno = 0, data = []\<rparr>,
      \<lparr>rv = 0, errno = 0, data = []\<rparr>, \<lparr>rv = 28, errno = 0, data = []\<rparr>,
      \<lparr>rv = 1, errno = 0, data = []\<rparr>, \<lparr>rv = - 1, errno = 5, data = []\<rparr>] =
     ([Open ''/dev/ttyS2'' O_RDWR,
       Printf (''UART2: %s open @ 115200'' @ [LF]) [StrArg ''/dev/ttyS2''],
       Select 4 [3] 5 0, Write 3 (map Some idle_notice) 28, Printf idle_notice [],
       Select 4 [3] 5 0, Read 3 128,
       Printf (''UART2: fail to read from uart: %d'' @ [LF]) [IntArg 5]], Exited)"
    using t [of "\<lparr>rv = - 1, errno = 5, data = []\<rparr>" "\<lparr>rv = 0, errno = 0, data = []\<rparr>" "[]"]
    by (simp add: PORT2_def)
  ultimately show ?thesis by simp
qed

subsection \<open>Task 2: idle cycles\<close>

lemma uart2_loop_idle_cycles:
  assumes "\<forall>(s, w) \<in> set idle. rv s = 0"
  shows "uart2_loop fd (concat (map (\<lambda>(s, w). [s, w]) idle) @ rest) =
           emit (concat (replicate (length idle)
                   [Select (fd + 1) [fd] 5 0,
                    Write fd (map Some idle_notice) 28,
                    Printf idle_notice []]))
             (uart2_loop fd rest)"
  using assms
proof (induction idle)
  case Nil
  show ?case by (simp add: emit_Nil)
next
  case (Cons p idle)
  obtain s w where p: "p = (s, w)" by (cases p)
  from Cons.prems p have s: "rv s = 0" by simp
  from Cons.prems have "\<forall>(s, w) \<in> set idle. rv s = 0" by simp
  then have IH: "uart2_loop fd (concat (map (\<lambda>(s, w). [s, w]) idle) @ rest) =
           emit (concat (replicate (length idle)
                   [Select (fd + 1) [fd] 5 0,
                    Write fd (map Some idle_notice) 28,
                    Printf idle_notice []]))
             (uart2_loop fd rest)"
    by (rule Cons.IH)
  show ?case
    by (simp add: p uart2_loop_idle(1) [OF s] IH emit_emit del: uart2_loop.simps)
qed

text \<open>
  Claim C3. Let task 2 have opened its port, and let any number of complete cycles (idle
  or with data) have passed. In every following cycle in which \<^verbatim>\<open>select\<close> returns
  0, the task writes the idle notice (all 28 characters of it) to the port, prints the
  same notice, and waits again. This holds for any number of consecutive idle cycles:
  after them the task has not returned and is blocked in \<^verbatim>\<open>select\<close> once more. When
  \<^verbatim>\<open>select\<close> has returned 0 and the \<^verbatim>\<open>write\<close> has not yet returned, the task is
  blocked in the \<^verbatim>\<open>write\<close> of the notice.
\<close>

theorem uart2_idle_notice_every_cycle:
  assumes "0 \<le> rv opened"
    and "\<forall>c \<in> set cyc. cycle_ok c"
    and "\<forall>(s, w) \<in> set idle. rv s = 0"
  shows "uart2_echo_task soc
           (opened # concat (map cycle_script cyc) @ concat (map (\<lambda>(s, w). [s, w]) idle)) =
           ([Open (PORT2 soc) O_RDWR,
             Printf (''UART2: %s open @ 115200'' @ [LF]) [StrArg (PORT2 soc)]] @
            concat (map (expected_cycle_events (rv opened)) cyc) @
            concat (replicate (length idle)
                   [Select (rv opened + 1) [rv opened] 5 0,
                    Write (rv opened) (map Some idle_notice) 28,
                    Printf idle_notice []]) @
            [Select (rv opened + 1) [rv opened] 5 0], Blocked) \<and>
         (rv s = 0 \<longrightarrow>
            uart2_echo_task soc
              (opened # concat (map cycle_script cyc) @
                 concat (map (\<lambda>(s, w). [s, w]) idle) @ [s]) =
              ([Open (PORT2 soc) O_RDWR,
                Printf (''UART2: %s open @ 115200'' @ [LF]) [StrArg (PORT2 soc)]] @
               concat (map (expected_cycle_events (rv opened)) cyc) @
               concat (replicate (length idle)
                      [Select (rv opened + 1) [rv opened] 5 0,
                       Write (rv opened) (map Some idle_notice) 28,
                       Printf idle_notice []]) @
               [Select (rv opened + 1) [rv opened] 5 0,
                Write (rv opened) (map Some idle_notice) 28], Blocked)) \<and>
         idle_notice = [CR, LF] @ ''UART2: No data for 5 sec'' @ [CR, LF]"
proof (intro conjI impI)
  note task = uart2_task_cycles [OF assms(1,2)]
  show "uart2_echo_task soc
           (opened # concat (map cycle_script cyc) @ concat (map (\<lambda>(s, w). [s, w]) idle)) =
           ([Open (PORT2 soc) O_RDWR,
             Printf (''UART2: %s open @ 115200'' @ [LF]) [StrArg (PORT2 soc)]] @
            concat (map (expected_cycle_events (rv opened)) cyc) @
            concat (replicate (length idle)
                   [Select (rv opened + 1) [rv opened] 5 0,
                    Write (rv opened) (map Some idle_notice) 28,
                    Printf idle_notice []]) @
            [Select (rv opened + 1) [rv opened] 5 0], Blocked)"
    using uart2_loop_idle_cycles [OF assms(3), of "rv opened" "[]"]
    by (simp add: task)
  show "uart2_echo_task soc
              (opened # concat (map cycle_script cyc) @
                 concat (map (\<lambda>(s, w). [s, w]) idle) @ [s]) =
              ([Open (PORT2 soc) O_RDWR,
                Printf (''UART2: %s open @ 115200'' @ [LF]) [StrArg (PORT2 soc)]] @
               concat (map (expected_cycle_events (rv opened)) cyc) @
               concat (replicate (length idle)
                      [Select (rv opened + 1) [rv opened] 5 0,
                       Write (rv opened) (map Some idle_notice) 28,
                       Printf idle_notice []]) @
               [Select (rv opened + 1) [rv opened] 5 0,
                Write (rv opened) (map Some idle_notice) 28], Blocked)"
    if "rv s = 0"
    using uart2_loop_idle_cycles [OF assms(3), of "rv opened" "[s]"]
    by (simp add: task uart2_loop_idle(2) [OF that] del: uart2_loop.simps)
  show "idle_notice = [CR, LF] @ ''UART2: No data for 5 sec'' @ [CR, LF]"
    by (simp add: idle_notice_def)
qed

theorem uart2_idle_notice_every_cycle_witness:
  "uart2_echo_task False
     [\<lparr>rv = 3, errno = 0, data = []\<rparr>,
      \<lparr>rv = 1, errno = 0, data = []\<rparr>, \<lparr>rv = 2, errno = 0, data = ''hi''\<rparr>,
      \<lparr>rv = 2, errno = 0, data = []\<rparr>,
      \<lparr>rv = 0, errno = 0, data = []\<rparr>, \<lparr>rv = 28, errno = 0, data = []\<rparr>,
      \<lparr>rv = 0, errno = 0, data = []\<rparr>, \<lparr>rv = - 1, errno = 5, data = []\<rparr>] =
     ([Open ''/dev/ttyS2'' O_RDWR,
       Printf (''UART2: %s open @ 115200'' @ [LF]) [StrArg ''/dev/ttyS2''],
       Select 4 [3] 5 0, Read 3 128, Write 3 [Some CHR ''h'', Some CHR ''i''] 2,
       Select 4 [3] 5 0, Write 3 (map Some idle_notice) 28, Printf idle_notice [],
       Select 4 [3] 5 0, Write 3 (map Some idle_notice) 28, Printf idle_notice [],
       Select 4 [3] 5 0], Blocked)"
proof -
  have o: "0 \<le> rv \<lparr>rv = 3, errno = 0, data = []\<rparr>"
    by simp
  have c: "\<forall>c \<in> set [Data_cycle \<lparr>rv = 1, errno = 0, data = []\<rparr>
                            \<lparr>rv = 2, errno = 0, data = ''hi''\<rparr>
                            \<lparr>rv = 2, errno = 0, data = []\<rparr>]. cycle_ok c"
    by simp
  have i: "\<forall>(s, w) \<in> set [(\<lparr>rv = 0, errno = 0, data = []\<rparr>, \<lparr>rv = 28, errno = 0, data = []\<rparr>),
          (\<lparr>rv = 0, errno = 0, data = []\<rparr>, \<lparr>rv = - 1, errno = 5, data = []\<rparr>)]. rv s = 0"
    by simp
  from uart2_idle_notice_every_cycle [OF o c i, of False, THEN conjunct1]
  show ?thesis
    by (simp add: numeral_2_eq_2 PORT2_def)
qed

subsection \<open>Task 2: failure of the wait\<close>



subsection \<open>Closing the port\<close>

text \<open>
  Task 1 closes the port on the only way out of its loop: when it has returned, the
  last call it made is \<^verbatim>\<open>close\<close> on the descriptor it opened.
\<close>

lemma uart1_closes_on_exit:
  assumes "0 \<le> rv opened"
    and "snd (uart1_echo_task soc (opened # script)) = Exited"
  shows "last (fst (uart1_echo_task soc (opened # script))) = Close (rv opened)"
proof (cases script)
  case Nil
  with assms show ?thesis by (simp add: uart1_echo_task_def)
next
  case s1: (Cons got s1)
  show ?thesis
  proof (cases s1)
    case Nil
    with s1 assms show ?thesis by (simp add: uart1_echo_task_def Let_def)
  next
    case s2: (Cons applied s2)
    obtain tr left where loop: "uart1_loop (rv opened) s2 = (tr, left)"
      by (cases "uart1_loop (rv opened) s2")
    with s1 s2 assms show ?thesis
      by (cases left; cases "the left")
         (simp_all add: uart1_echo_task_def Let_def)
  qed
qed

text \<open>Task 2 has no \<^verbatim>\<open>close\<close> call at all.\<close>

lemma uart2_loop_never_closes: "Close fd' \<notin> set (fst (uart2_loop fd script))"
  by (induction fd script rule: uart2_loop.induct)
     (auto simp: Let_def split: list.splits if_splits)

lemma uart2_never_closes: "Close fd' \<notin> set (fst (uart2_echo_task soc script))"
proof (cases script)
  case Nil
  then show ?thesis by (simp add: uart2_echo_task_def)
next
  case (Cons opened s1)
  show ?thesis
  proof (cases "rv opened < 0")
    case True
    with Cons show ?thesis by (simp add: uart2_echo_task_def)
  next
    case False
    with Cons uart2_loop_never_closes [of fd' "rv opened" s1] show ?thesis
      by (simp add: uart2_echo_task_opened)
  qed
qed

text \<open>
  Claim C5 holds for task 1 and fails for task 2. After a successful \<^verbatim>\<open>open\<close>
  returning descriptor 3, a failing \<^verbatim>\<open>select\<close> (and likewise a failing
  \<^verbatim>\<open>read\<close>) makes task 2 print its diagnostic and return with the descriptor still
  open: its trace has no \<^verbatim>\<open>close\<close>. Task 1, on a failing \<^verbatim>\<open>read\<close>, calls
  \<^verbatim>\<open>close\<close> before it returns.
\<close>

theorem uart2_exits_without_close:
  "uart2_echo_task False
     [\<lparr>rv = 3, errno = 0, data = []\<rparr>, \<lparr>rv = - 1, errno = 5, data = []\<rparr>] =
     ([Open ''/dev/ttyS2'' O_RDWR,
       Printf (''UART2: %s open @ 115200'' @ [LF]) [StrArg ''/dev/ttyS2''],
       Select 4 [3] 5 0,
       Printf (''UART2: Select error: %d'' @ [LF]) [IntArg 5]], Exited) \<and>
   uart2_echo_task False
     [\<lparr>rv = 3, errno = 0, data = []\<rparr>, \<lparr>rv = 1, errno = 0, data = []\<rparr>,
      \<lparr>rv = - 1, errno = 5, data = []\<rparr>] =
     ([Open ''/dev/ttyS2'' O_RDWR,
       Printf (''UART2: %s open @ 115200'' @ [LF]) [StrArg ''/dev/ttyS2''],
       Select 4 [3] 5 0, Read 3 128,
       Printf (''UART2: fail to read from uart: %d'' @ [LF]) [IntArg 5]], Exited) \<and>
   uart1_echo_task False
     [\<lparr>rv = 3, errno = 0, data = []\<rparr>, \<lparr>rv = 0, errno = 0, data = []\<rparr>,
      \<lparr>rv = 0, errno = 0, data = []\<rparr>, \<lparr>rv = - 1, errno = 5, data = []\<rparr>,
      \<lparr>rv = 0, errno = 0, data = []\<rparr>] =
     ([Open ''/dev/ttyS1'' O_RDWR, Tcgetattr 3, Cfsetspeed B9600, Tcsetattr 3 TCSANOW,
       Printf (''UART1: %s open @ 9600'' @ [LF]) [StrArg ''/dev/ttyS1''],
       Read 3 1,
       Printf (''UART1: fail to read from uart: %d'' @ [LF]) [IntArg 5],
       Close 3], Exited)"
  by (simp add: uart2_echo_task_def uart1_echo_task_def PORT1_def PORT2_def)

subsection \<open>The result of a write\<close>

text \<open>
  When a loop is blocked in a \<^verbatim>\<open>write\<close>, what follows does not depend on what the
  call returns: the loop goes on to its next cycle (task 2 first prints the idle notice
  when the write was that of the notice).
\<close>

lemma uart1_after_write:
  "pending (uart1_loop fd pre) = Some (Write fd' buf n) \<Longrightarrow>
   uart1_loop fd (pre @ w # post) = emit (fst (uart1_loop fd pre)) (uart1_loop fd post)"
proof (induction fd pre rule: uart1_loop.induct)
  case (1 fd)
  then show ?case by (simp add: pending_def)
next
  case (2 fd r rs)
  show ?case
  proof (cases "rv r < 0")
    case True
    with "2.prems" show ?thesis by (simp add: pending_def)
  next
    case False
    show ?thesis
    proof (cases rs)
      case Nil
      with False show ?thesis by (simp add: Let_def)
    next
      case (Cons w0 rs')
      from False Cons "2.prems"
      have p: "pending (uart1_loop fd rs') = Some (Write fd' buf n)"
        by (simp add: Let_def pending_emit uart1_loop_nonempty)
      from False Cons have IH: "uart1_loop fd (rs' @ w # post) =
          emit (fst (uart1_loop fd rs')) (uart1_loop fd post)"
        using "2.IH" [OF refl refl _ _ p] by simp
      from False Cons show ?thesis
        by (simp add: Let_def IH emit_emit)
    qed
  qed
qed

lemma uart2_after_write:
  "pending (uart2_loop fd pre) = Some (Write fd' buf n) \<Longrightarrow>
   \<exists>extra \<in> {[], [Printf idle_notice []]}. \<forall>w post.
     uart2_loop fd (pre @ w # post) =
       emit (fst (uart2_loop fd pre) @ extra) (uart2_loop fd post)"
proof (induction fd pre rule: uart2_loop.induct)
  case (1 fd)
  then show ?case by (simp add: pending_def)
next
  case (2 fd s rs)
  consider (ready) "0 < rv s" | (failed) "rv s = - 1" | (idle) "rv s \<le> 0" "rv s \<noteq> - 1"
    by linarith
  then show ?case
  proof cases
    case ready
    show ?thesis
    proof (cases rs)
      case Nil
      with ready "2.prems" show ?thesis by (simp add: pending_def)
    next
      case (Cons r rs')
      note rs = Cons
      show ?thesis
      proof (cases "rv r < 0")
        case True
        with ready rs "2.prems" show ?thesis by (simp add: pending_def)
      next
        case False
        show ?thesis
        proof (cases rs')
          case Nil
          with False ready rs show ?thesis by (simp add: Let_def)
        next
          case (Cons w0 rs'')
          from False ready rs Cons "2.prems"
          have p: "pending (uart2_loop fd rs'') = Some (Write fd' buf n)"
            by (simp add: Let_def pending_emit uart2_loop_nonempty)
          have "\<exists>extra \<in> {[], [Printf idle_notice []]}. \<forall>w post.
                  uart2_loop fd (rs'' @ w # post) =
                    emit (fst (uart2_loop fd rs'') @ extra) (uart2_loop fd post)"
            using "2.IH"(1) False ready rs Cons p by simp
          then obtain extra where e: "extra \<in> {[], [Printf idle_notice []]}"
            and IH: "\<And>w post. uart2_loop fd (rs'' @ w # post) =
                    emit (fst (uart2_loop fd rs'') @ extra) (uart2_loop fd post)"
            by blast
          have "\<forall>w post. uart2_loop fd ((s # rs) @ w # post) =
                  emit (fst (uart2_loop fd (s # rs)) @ extra) (uart2_loop fd post)"
            using False ready rs Cons by (simp add: Let_def IH emit_emit)
          with e show ?thesis by blast
        qed
      qed
    qed
  next
    case failed
    with "2.prems" show ?thesis by (simp add: pending_def)
  next
    case idle
    show ?thesis
    proof (cases rs)
      case Nil
      with idle show ?thesis by simp
    next
      case (Cons w0 rs')
      from idle Cons "2.prems"
      have p: "pending (uart2_loop fd rs') = Some (Write fd' buf n)"
        by (simp add: pending_emit uart2_loop_nonempty)
      have "\<exists>extra \<in> {[], [Printf idle_notice []]}. \<forall>w post.
              uart2_loop fd (rs' @ w # post) =
                emit (fst (uart2_loop fd rs') @ extra) (uart2_loop fd post)"
        using "2.IH"(2) idle Cons p by simp
      then obtain extra where e: "extra \<in> {[], [Printf idle_notice []]}"
        and IH: "\<And>w post. uart2_loop fd (rs' @ w # post) =
                emit (fst (uart2_loop fd rs') @ extra) (uart2_loop fd post)"
        by blast
      have "\<forall>w post. uart2_loop fd ((s # rs) @ w # post) =
              emit (fst (uart2_loop fd (s # rs)) @ extra) (uart2_loop fd post)"
        using idle Cons by (simp add: IH emit_emit)
      with e show ?thesis by blast
    qed
  qed
qed

text \<open>
  Claim C9. In either loop the value returned by a \<^verbatim>\<open>write\<close> (the echo write or the
  write of the idle notice) is never looked at: whenever a loop is blocked in a
  \<^verbatim>\<open>write\<close>, any two return values \<open>w\<close> and \<open>w'\<close> lead to the same trace and the
  same state for the same remaining script, and after the call returns the loop has not
  been left: it is blocked in the \<^verbatim>\<open>read\<close> (task 1) or the \<^verbatim>\<open>select\<close>
  (task 2) of the next cycle, with no output other than the idle notice that task 2
  prints after writing it.
\<close>

theorem write_result_never_examined:
  "(pending (uart1_loop fd pre) = Some (Write fd' buf n) \<longrightarrow>
      uart1_loop fd (pre @ w # post) = uart1_loop fd (pre @ w' # post) \<and>
      uart1_loop fd (pre @ [w]) = (fst (uart1_loop fd pre) @ [Read fd 1], None)) \<and>
   (pending (uart2_loop fd pre) = Some (Write fd' buf n) \<longrightarrow>
      uart2_loop fd (pre @ w # post) = uart2_loop fd (pre @ w' # post) \<and>
      (uart2_loop fd (pre @ [w]) =
         (fst (uart2_loop fd pre) @ [Select (fd + 1) [fd] 5 0], None) \<or>
       uart2_loop fd (pre @ [w]) =
         (fst (uart2_loop fd pre) @ [Printf idle_notice [], Select (fd + 1) [fd] 5 0], None)))"
proof (intro conjI impI)
  assume p: "pending (uart1_loop fd pre) = Some (Write fd' buf n)"
  show "uart1_loop fd (pre @ w # post) = uart1_loop fd (pre @ w' # post)"
    by (simp only: uart1_after_write [OF p])
  show "uart1_loop fd (pre @ [w]) = (fst (uart1_loop fd pre) @ [Read fd 1], None)"
    by (simp add: uart1_after_write [OF p])
next
  assume p: "pending (uart2_loop fd pre) = Some (Write fd' buf n)"
  from uart2_after_write [OF p]
  obtain extra where e: "extra \<in> {[], [Printf idle_notice []]}"
    and eq: "\<And>w post. uart2_loop fd (pre @ w # post) =
                emit (fst (uart2_loop fd pre) @ extra) (uart2_loop fd post)"
    by blast
  show "uart2_loop fd (pre @ w # post) = uart2_loop fd (pre @ w' # post)"
    by (simp only: eq)
  from e show "uart2_loop fd (pre @ [w]) =
         (fst (uart2_loop fd pre) @ [Select (fd + 1) [fd] 5 0], None) \<or>
       uart2_loop fd (pre @ [w]) =
         (fst (uart2_loop fd pre) @ [Printf idle_notice [], Select (fd + 1) [fd] 5 0], None)"
    by (auto simp: eq)
qed

theorem write_result_never_examined_witness:
  "pending (uart1_loop 3 [\<lparr>rv = 1, errno = 0, data = ''a''\<rparr>]) = Some (Write 3 [Some CHR ''a''] 1) \<and>
   uart1_loop 3 [\<lparr>rv = 1, errno = 0, data = ''a''\<rparr>, \<lparr>rv = 1, errno = 0, data = []\<rparr>] =
   uart1_loop 3 [\<lparr>rv = 1, errno = 0, data = ''a''\<rparr>, \<lparr>rv = - 1, errno = 5, data = []\<rparr>] \<and>
   uart1_loop 3 [\<lparr>rv = 1, errno = 0, data = ''a''\<rparr>, \<lparr>rv = - 1, errno = 5, data = []\<rparr>] =
     ([Read 3 1, Write 3 [Some CHR ''a''] 1, Read 3 1], None) \<and>
   pending (uart2_loop 4 [\<lparr>rv = 0, errno = 0, data = []\<rparr>]) =
     Some (Write 4 (map Some idle_notice) 28) \<and>
   uart2_loop 4 [\<lparr>rv = 0, errno = 0, data = []\<rparr>, \<lparr>rv = 28, errno = 0, data = []\<rparr>] =
   uart2_loop 4 [\<lparr>rv = 0, errno = 0, data = []\<rparr>, \<lparr>rv = - 1, errno = 5, data = []\<rparr>]"
proof -
  have p1: "pending (uart1_loop 3 [\<lparr>rv = 1, errno = 0, data = ''a''\<rparr>]) =
      Some (Write 3 [Some CHR ''a''] 1)"
    by (simp add: pending_def store_def)
  have p2: "pending (uart2_loop 4 [\<lparr>rv = 0, errno = 0, data = []\<rparr>]) =
     Some (Write 4 (map Some idle_notice) 28)"
    by (simp add: pending_def strlen_idle_notice)
  note t1 = write_result_never_examined
    [of 3 "[\<lparr>rv = 1, errno = 0, data = ''a''\<rparr>]" 3 "[Some CHR ''a'']" 1
        "\<lparr>rv = - 1, errno = 5, data = []\<rparr>" "[]" "\<lparr>rv = 1, errno = 0, data = []\<rparr>",
     THEN conjunct1, rule_format, OF p1]
  note t2 = write_result_never_examined
    [of 4 "[\<lparr>rv = 0, errno = 0, data = []\<rparr>]" 4 "map Some idle_notice" 28
        "\<lparr>rv = 28, errno = 0, data = []\<rparr>" "[]" "\<lparr>rv = - 1, errno = 5, data = []\<rparr>",
     THEN conjunct2, rule_format, OF p2]
  from t1 have a: "uart1_loop 3 [\<lparr>rv = 1, errno = 0, data = ''a''\<rparr>, \<lparr>rv = 1, errno = 0, data = []\<rparr>] =
   uart1_loop 3 [\<lparr>rv = 1, errno = 0, data = ''a''\<rparr>, \<lparr>rv = - 1, errno = 5, data = []\<rparr>]"
    by (simp del: uart1_loop.simps)
  from t1 have b: "uart1_loop 3 [\<lparr>rv = 1, errno = 0, data = ''a''\<rparr>, \<lparr>rv = - 1, errno = 5, data = []\<rparr>] =
     ([Read 3 1, Write 3 [Some CHR ''a''] 1, Read 3 1], None)"
    by (simp add: store_def)
  from t2 have c: "uart2_loop 4 [\<lparr>rv = 0, errno = 0, data = []\<rparr>, \<lparr>rv = 28, errno = 0, data = []\<rparr>] =
   uart2_loop 4 [\<lparr>rv = 0, errno = 0, data = []\<rparr>, \<lparr>rv = - 1, errno = 5, data = []\<rparr>]"
    by (simp del: uart2_loop.simps)
  from p1 a b p2 c show ?thesis by (simp only: simp_thms)
qed

end
